theory Spec2Isabelle
  imports Complex_Main "HOL-Library.AList"
begin

section \<open>The worker agent of \<open>src/core/agent/worker.py\<close>\<close>

text \<open>
  The worker runs on one asyncio event loop: coroutines interleave only where one of them
  really suspends. Each function below is one such uninterrupted stretch of the source,
  acting on the worker's attributes and on the event loop's tasks.

  Resource quantities are Python floats in the source. Here they are the values of a type
  \<open>'a\<close> with an addition, a subtraction and a comparison of which nothing is assumed: where
  the type is left open, no law of arithmetic or of order is used, so what is proved there
  is proved of the floats with their rounding, their infinities and their NaN. The closed
  runs from a freshly constructed worker are computed in the rationals, that is, in exact
  arithmetic.

  The class modelled is \<open>WorkerAgent\<close> with the methods it defines itself. Its base class
  \<open>BaseAgent\<close> is not among the sources: its constructor, its logger and its own
  \<open>shutdown\<close> are taken to return without touching the worker's attributes. The model
  classes are those of the validation library the file imports \<open>Field\<close> and \<open>validator\<close>
  from.
\<close>

subsection \<open>Data\<close>

type_synonym TaskID = string

type_synonym 'a ResourceProfile = "string \<rightharpoonup> 'a"

datatype error =
    KeyError string
  | ValueError string
  | ValidationError string
  | CancelledError

text \<open>\<open>d[k]\<close> on a dict: a missing key raises \<open>KeyError\<close>.\<close>

definition getitem :: "'a ResourceProfile \<Rightarrow> string \<Rightarrow> error + 'a" where
  "getitem d k = (case d k of None \<Rightarrow> Inl (KeyError k) | Some v \<Rightarrow> Inr v)"

record 'a WorkerConfig =
  max_concurrent_tasks :: nat
  task_timeout :: nat
  resource_limits :: "'a ResourceProfile"

text \<open>The defaults of the class \<open>WorkerConfig\<close>, which \<open>WorkerAgent.__init__\<close> takes as they are.\<close>

definition default_config :: "rat WorkerConfig" where
  "default_config =
     \<lparr> max_concurrent_tasks = 5, task_timeout = 300,
       resource_limits = [''cpu'' \<mapsto> 2, ''mem_gb'' \<mapsto> 8] \<rparr>"

text \<open>The validator \<open>validate_resources\<close>, the function as it is written: \<open>or\<close> reads the
  second limit only when the first is positive, a limit that is not positive raises
  \<open>ValueError\<close>, and the limits are returned otherwise.\<close>

definition validate_resources :: "('a::{zero,ord}) ResourceProfile \<Rightarrow> error + 'a ResourceProfile" where
  "validate_resources v =
     (case getitem v ''cpu'' of
        Inl e \<Rightarrow> Inl e
      | Inr c \<Rightarrow>
          if c \<le> 0 then Inl (ValueError ''Resource limits must be positive'')
          else (case getitem v ''mem_gb'' of
                  Inl e \<Rightarrow> Inl e
                | Inr m \<Rightarrow>
                    if m \<le> 0 then Inl (ValueError ''Resource limits must be positive'')
                    else Inr v))"

record 'a TaskRequest =
  task_id :: TaskID
  payload :: "(string \<times> string) list"
  priority :: int
  deadline :: "nat option"
  required_resources :: "'a ResourceProfile"

text \<open>
  A value handed to a model field before validation: the source passes floats for the
  metrics of a finished body and a \<open>str\<close> for the \<open>"error"\<close> metric.
\<close>

datatype 'a pyvalue = PyFloat 'a | PyStr string

text \<open>\<open>TaskResult\<close>; its \<open>task_id\<close> field is \<open>result_task_id\<close> here.\<close>

record 'a TaskResult =
  result_task_id :: TaskID
  success :: bool
  metrics :: "(string \<times> 'a) list"
  artifacts :: "string list"

text \<open>The attributes \<open>WorkerAgent.__init__\<close> sets. A registry entry maps a task identifier
  to the handle of its asyncio task, a position in the event loop's task list; the list
  keeps the dict's insertion order.\<close>

record 'a WorkerAgent =
  worker_config :: "'a WorkerConfig"
  task_registry :: "(TaskID \<times> nat) list"
  resource_semaphore :: nat
  current_load :: "'a ResourceProfile"

definition new_agent :: "rat WorkerAgent" where
  "new_agent =
     \<lparr> worker_config = default_config, task_registry = [],
       resource_semaphore = max_concurrent_tasks default_config,
       current_load = [''cpu'' \<mapsto> 0, ''mem_gb'' \<mapsto> 0] \<rparr>"

text \<open>
  An asyncio task wrapping \<open>_execute_task(task)\<close>. \<open>Pending\<close>: created by
  \<open>asyncio.create_task\<close>, its coroutine has not run yet. \<open>Suspended\<close>: the coroutine waits
  inside \<open>_run_task_impl\<close> under the timeout. \<open>Done\<close>: finished, with the exception it
  ended on, if any. \<open>must_cancel\<close> is set by \<open>Task.cancel()\<close>.
\<close>

datatype task_state = Pending | Suspended | Done "error option"

record 'a asyncio_task =
  coro :: "'a TaskRequest"
  state :: task_state
  must_cancel :: bool

text \<open>The worker together with the event loop's tasks and the results the Reporter
  (\<open>_report_to_orchestrator\<close>) has been called with, in call order.\<close>

record 'a world =
  agent :: "'a WorkerAgent"
  tasks :: "'a asyncio_task list"
  reports :: "'a TaskResult list"

definition new_world :: "rat world" where
  "new_world = \<lparr> agent = new_agent, tasks = [], reports = [] \<rparr>"

subsection \<open>Admission\<close>

text \<open>
  \<open>_check_resources\<close>. Python evaluates \<open>A and B\<close> left to right and skips \<open>B\<close> when
  \<open>A\<close> is false; inside each comparison the load is read first, then the requirement,
  then the limit.
\<close>

definition check_resources ::
  "('a::{plus,minus,ord}) WorkerAgent \<Rightarrow> 'a ResourceProfile \<Rightarrow> error + bool" where
  "check_resources w required =
     (case getitem (current_load w) ''cpu'' of
        Inl e \<Rightarrow> Inl e
      | Inr lc \<Rightarrow>
     (case getitem required ''cpu'' of
        Inl e \<Rightarrow> Inl e
      | Inr rc \<Rightarrow>
     (case getitem (resource_limits (worker_config w)) ''cpu'' of
        Inl e \<Rightarrow> Inl e
      | Inr mc \<Rightarrow>
     if \<not> lc + rc \<le> mc then Inr False
     else
     (case getitem (current_load w) ''mem_gb'' of
        Inl e \<Rightarrow> Inl e
      | Inr lm \<Rightarrow>
     (case getitem required ''mem_gb'' of
        Inl e \<Rightarrow> Inl e
      | Inr rm \<Rightarrow>
     (case getitem (resource_limits (worker_config w)) ''mem_gb'' of
        Inl e \<Rightarrow> Inl e
      | Inr mm \<Rightarrow> Inr (lm + rm \<le> mm)))))))"

text \<open>The answers of \<open>_handle_task_request\<close>: \<open>{"task_id": .., "status": "queued"}\<close> and
  \<open>{"error": "insufficient_resources"}\<close>. \<open>Awaiting_slot\<close> stands for a handler that
  suspends in \<open>async with self._resource_semaphore\<close> because no slot is free.\<close>

datatype response = Queued TaskID | Insufficient_resources | Awaiting_slot

definition create_task :: "'a TaskRequest \<Rightarrow> 'a asyncio_task" where
  "create_task t = \<lparr> coro = t, state = Pending, must_cancel = False \<rparr>"

text \<open>
  \<open>_handle_task_request\<close>. With a free slot \<open>Semaphore.acquire\<close> returns without
  suspending, the block holds no \<open>await\<close>, and leaving it releases the slot: the whole
  handler is one stretch. The spawned task is only scheduled; nothing of
  \<open>_execute_task\<close> runs here.
\<close>

definition handle_task_request ::
  "('a::{plus,minus,ord}) world \<Rightarrow> 'a TaskRequest \<Rightarrow> (error + response) \<times> 'a world" where
  "handle_task_request s task =
     (case check_resources (agent s) (required_resources task) of
        Inl e \<Rightarrow> (Inl e, s)
      | Inr False \<Rightarrow> (Inr Insufficient_resources, s)
      | Inr True \<Rightarrow>
          if resource_semaphore (agent s) = 0 then (Inr Awaiting_slot, s)
          else
            let acquired = (agent s)\<lparr> resource_semaphore := resource_semaphore (agent s) - 1 \<rparr>;
                h = length (tasks s);
                registered = acquired\<lparr> task_registry :=
                               AList.update (task_id task) h (task_registry acquired) \<rparr>;
                released = registered\<lparr> resource_semaphore := resource_semaphore registered + 1 \<rparr>
            in (Inr (Queued (task_id task)),
                s\<lparr> agent := released, tasks := tasks s @ [create_task task] \<rparr>))"

subsection \<open>Results and the Reporter\<close>

text \<open>
  \<open>TaskResult(task_id=.., success=.., metrics=..)\<close>. The field \<open>metrics\<close> is declared
  \<open>Dict[str, float]\<close>, and the model class validates what it is given: a float is kept,
  a \<open>str\<close> is kept only when it spells a number, and anything else raises
  \<open>ValidationError\<close>. Which strings spell a number is the validation library's business
  and is a parameter here, \<open>coerce\<close>.
\<close>

definition validate_metric ::
  "(string \<Rightarrow> 'a option) \<Rightarrow> string \<times> 'a pyvalue \<Rightarrow> error + (string \<times> 'a)" where
  "validate_metric coerce kv =
     (case snd kv of
        PyFloat r \<Rightarrow> Inr (fst kv, r)
      | PyStr x \<Rightarrow>
          (case coerce x of
             None \<Rightarrow> Inl (ValidationError (fst kv))
           | Some r \<Rightarrow> Inr (fst kv, r)))"

fun validate_metrics ::
  "(string \<Rightarrow> 'a option) \<Rightarrow> (string \<times> 'a pyvalue) list \<Rightarrow> error + (string \<times> 'a) list" where
  "validate_metrics coerce [] = Inr []"
| "validate_metrics coerce (kv # kvs) =
     (case validate_metric coerce kv of
        Inl e \<Rightarrow> Inl e
      | Inr m \<Rightarrow>
          (case validate_metrics coerce kvs of
             Inl e \<Rightarrow> Inl e
           | Inr ms \<Rightarrow> Inr (m # ms)))"

definition TaskResult_new ::
  "(string \<Rightarrow> 'a option) \<Rightarrow> TaskID \<Rightarrow> bool \<Rightarrow> (string \<times> 'a pyvalue) list \<Rightarrow> error + 'a TaskResult" where
  "TaskResult_new coerce tid ok ms =
     (case validate_metrics coerce ms of
        Inl e \<Rightarrow> Inl e
      | Inr m \<Rightarrow> Inr \<lparr> result_task_id = tid, success = ok, metrics = m, artifacts = [] \<rparr>)"

text \<open>A coercion for closed examples: an unsigned decimal numeral, digits with at most
  one point among them.\<close>

definition digit_val :: "char \<Rightarrow> nat option" where
  "digit_val c =
     (let n = (of_char c :: nat)
      in if 48 \<le> n \<and> n \<le> 57 then Some (n - 48) else None)"

fun decimal :: "rat \<Rightarrow> rat \<Rightarrow> bool \<Rightarrow> bool \<Rightarrow> string \<Rightarrow> rat option" where
  "decimal acc scale pt seen [] = (if seen then Some (acc / scale) else None)"
| "decimal acc scale pt seen (c # cs) =
     (if c = CHR ''.'' then
        (if pt then None else decimal acc scale True seen cs)
      else
        (case digit_val c of
           None \<Rightarrow> None
         | Some d \<Rightarrow>
             decimal (acc * 10 + of_nat d) (if pt then scale * 10 else scale) pt True cs))"

definition decimal_literal :: "string \<Rightarrow> rat option" where
  "decimal_literal x = decimal 0 1 False False x"

text \<open>\<open>_report_to_orchestrator\<close> of the base class: its body is \<open>pass\<close>, so it never
  raises and never suspends. The call is recorded.\<close>

definition report_to_orchestrator :: "'a world \<Rightarrow> 'a TaskResult \<Rightarrow> 'a world" where
  "report_to_orchestrator s r = s\<lparr> reports := reports s @ [r] \<rparr>"

text \<open>\<open>_handle_task_failure\<close>: the result is constructed first, then reported. A
  \<open>ValidationError\<close> raised by the construction leaves the handler.\<close>

definition handle_task_failure ::
  "(string \<Rightarrow> 'a option) \<Rightarrow> 'a world \<Rightarrow> TaskID \<Rightarrow> string \<Rightarrow> error option \<times> 'a world" where
  "handle_task_failure coerce s tid reason =
     (case TaskResult_new coerce tid False [(''error'', PyStr reason)] of
        Inl e \<Rightarrow> (Some e, s)
      | Inr r \<Rightarrow> (None, report_to_orchestrator s r))"

subsection \<open>Execution\<close>

text \<open>\<open>self._current_load[k] += required[k]\<close> and \<open>-=\<close>: both dicts are read before the
  store.\<close>

definition add_load ::
  "string \<Rightarrow> ('a::{plus,minus,ord}) ResourceProfile \<Rightarrow> 'a WorkerAgent \<Rightarrow> error + 'a WorkerAgent" where
  "add_load k required w =
     (case getitem (current_load w) k of
        Inl e \<Rightarrow> Inl e
      | Inr l \<Rightarrow>
          (case getitem required k of
             Inl e \<Rightarrow> Inl e
           | Inr r \<Rightarrow> Inr (w\<lparr> current_load := (current_load w)(k \<mapsto> l + r) \<rparr>)))"

definition sub_load ::
  "string \<Rightarrow> ('a::{plus,minus,ord}) ResourceProfile \<Rightarrow> 'a WorkerAgent \<Rightarrow> error + 'a WorkerAgent" where
  "sub_load k required w =
     (case getitem (current_load w) k of
        Inl e \<Rightarrow> Inl e
      | Inr l \<Rightarrow>
          (case getitem required k of
             Inl e \<Rightarrow> Inl e
           | Inr r \<Rightarrow> Inr (w\<lparr> current_load := (current_load w)(k \<mapsto> l - r) \<rparr>)))"

text \<open>The \<open>finally\<close> block of \<open>_execute_task\<close>: two decrements, then
  \<open>self._task_registry.pop(task.task_id, None)\<close>. An exception raised in it is returned.\<close>

definition release_resources ::
  "('a::{plus,minus,ord}) WorkerAgent \<Rightarrow> 'a TaskRequest \<Rightarrow> error option \<times> 'a WorkerAgent" where
  "release_resources w t =
     (case sub_load ''cpu'' (required_resources t) w of
        Inl e \<Rightarrow> (Some e, w)
      | Inr w1 \<Rightarrow>
          (case sub_load ''mem_gb'' (required_resources t) w1 of
             Inl e \<Rightarrow> (Some e, w1)
           | Inr w2 \<Rightarrow>
               (None, w2\<lparr> task_registry := AList.delete (task_id t) (task_registry w2) \<rparr>)))"

text \<open>Leaving \<open>_execute_task\<close> with \<open>exc\<close> in flight (\<open>None\<close>: a normal return): the
  \<open>finally\<close> block runs, an exception of its own replaces \<open>exc\<close>, and the task is done.\<close>

definition finish :: "('a::{plus,minus,ord}) world \<Rightarrow> nat \<Rightarrow> error option \<Rightarrow> 'a world" where
  "finish s h exc =
     (let tk = tasks s ! h;
          r = release_resources (agent s) (coro tk);
          final = (case fst r of Some e \<Rightarrow> Some e | None \<Rightarrow> exc)
      in s\<lparr> agent := snd r, tasks := (tasks s)[h := tk\<lparr> state := Done final \<rparr>] \<rparr>)"

text \<open>A handler of \<open>_execute_task\<close> calling \<open>_handle_task_failure(task.task_id, reason)\<close>,
  followed by the \<open>finally\<close> block.\<close>

definition fail_task ::
  "(string \<Rightarrow> 'a option) \<Rightarrow> ('a::{plus,minus,ord}) world \<Rightarrow> nat \<Rightarrow> string \<Rightarrow> 'a world" where
  "fail_task coerce s h reason =
     (let r = handle_task_failure coerce s (task_id (coro (tasks s ! h))) reason
      in finish (snd r) h (fst r))"

text \<open>\<open>str(e)\<close> for the exceptions of this development.\<close>

definition str_of_error :: "error \<Rightarrow> string" where
  "str_of_error e =
     (case e of
        KeyError k \<Rightarrow> [CHR 0x27] @ k @ [CHR 0x27]
      | ValueError msg \<Rightarrow> msg
      | ValidationError loc \<Rightarrow> ''validation error for TaskResult: '' @ loc
      | CancelledError \<Rightarrow> [])"

text \<open>
  The first run of a task's coroutine, up to the \<open>await\<close> of the body. A task cancelled
  before it ever ran gets \<open>CancelledError\<close> thrown into a coroutine that has not started:
  no line of \<open>_execute_task\<close> runs, neither the \<open>try\<close> nor the \<open>finally\<close>. Otherwise the
  two increments run; a \<open>KeyError\<close> in them is an \<open>Exception\<close> and goes to the second
  handler.
\<close>

definition start_task ::
  "(string \<Rightarrow> 'a option) \<Rightarrow> ('a::{plus,minus,ord}) world \<Rightarrow> nat \<Rightarrow> 'a world" where
  "start_task coerce s h =
     (if h < length (tasks s) \<and> state (tasks s ! h) = Pending then
        let tk = tasks s ! h in
        if must_cancel tk then
          s\<lparr> tasks := (tasks s)[h := tk\<lparr> state := Done (Some CancelledError) \<rparr>] \<rparr>
        else
          (case add_load ''cpu'' (required_resources (coro tk)) (agent s) of
             Inl e \<Rightarrow> fail_task coerce s h (str_of_error e)
           | Inr w1 \<Rightarrow>
               (case add_load ''mem_gb'' (required_resources (coro tk)) w1 of
                  Inl e \<Rightarrow> fail_task coerce (s\<lparr> agent := w1 \<rparr>) h (str_of_error e)
                | Inr w2 \<Rightarrow>
                    s\<lparr> agent := w2, tasks := (tasks s)[h := tk\<lparr> state := Suspended \<rparr>] \<rparr>))
      else s)"

text \<open>How the awaited body ends for a task nobody cancelled: it returns its metrics, the
  timeout expires (or the body raises \<open>TimeoutError\<close> itself), or it raises another
  \<open>Exception\<close> whose \<open>str\<close> is given.\<close>

datatype 'a body_outcome = Body_returns "(string \<times> 'a) list" | Body_timeout | Body_raises string

text \<open>
  The second run of the coroutine, from the \<open>await\<close> of the body to the end. A cancelled
  task resumes with \<open>CancelledError\<close>, whatever the body did meanwhile: it is not an
  \<open>Exception\<close>, so neither handler catches it and only the \<open>finally\<close> block runs.
\<close>

definition resume_task ::
  "(string \<Rightarrow> 'a option) \<Rightarrow> ('a::{plus,minus,ord}) world \<Rightarrow> nat \<Rightarrow> 'a body_outcome \<Rightarrow> 'a world" where
  "resume_task coerce s h outcome =
     (if h < length (tasks s) \<and> state (tasks s ! h) = Suspended then
        if must_cancel (tasks s ! h) then finish s h (Some CancelledError)
        else
          (case outcome of
             Body_returns m \<Rightarrow>
               (case TaskResult_new coerce (task_id (coro (tasks s ! h))) True
                       (map (\<lambda>kv. (fst kv, PyFloat (snd kv))) m) of
                  Inl e \<Rightarrow> fail_task coerce s h (str_of_error e)
                | Inr r \<Rightarrow> finish (report_to_orchestrator s r) h None)
           | Body_timeout \<Rightarrow> fail_task coerce s h ''timeout''
           | Body_raises msg \<Rightarrow> fail_task coerce s h msg)
      else s)"

subsection \<open>Shutdown\<close>

text \<open>\<open>Task.cancel()\<close>: no effect on a finished task.\<close>

definition cancel :: "'a asyncio_task \<Rightarrow> 'a asyncio_task" where
  "cancel tk = (case state tk of Done r \<Rightarrow> tk | _ \<Rightarrow> tk\<lparr> must_cancel := True \<rparr>)"

definition cancel_handle :: "nat \<Rightarrow> 'a world \<Rightarrow> 'a world" where
  "cancel_handle h s =
     (if h < length (tasks s) then s\<lparr> tasks := (tasks s)[h := cancel (tasks s ! h)] \<rparr> else s)"

text \<open>The next run of a task that is ready: a pending task takes its first run, cancelled
  or not; a suspended task that has been cancelled resumes with \<open>CancelledError\<close>. A
  suspended task nobody cancelled still waits for its body, and a finished task has
  nothing left to run.\<close>

definition run_ready ::
  "(string \<Rightarrow> 'a option) \<Rightarrow> nat \<Rightarrow> ('a::{plus,minus,ord}) world \<Rightarrow> 'a world" where
  "run_ready coerce h s =
     (if h < length (tasks s) then
        (case state (tasks s ! h) of
           Pending \<Rightarrow> start_task coerce s h
         | Suspended \<Rightarrow> (if must_cancel (tasks s ! h) then finish s h (Some CancelledError) else s)
         | Done r \<Rightarrow> s)
      else s)"

text \<open>The ready queue of the event loop when shutdown suspends in \<open>asyncio.gather\<close>: the
  first runs of all tasks still pending, registered or not, each scheduled when the task
  was created; then the resumptions of the suspended tasks the \<open>for\<close> loop has just
  cancelled, in the registry's order.\<close>

definition ready_queue :: "nat list \<Rightarrow> 'a world \<Rightarrow> nat list" where
  "ready_queue hs s =
     filter (\<lambda>h. state (tasks s ! h) = Pending) [0..<length (tasks s)] @
     filter (\<lambda>h. h < length (tasks s) \<and> state (tasks s ! h) = Suspended) hs"

text \<open>
  \<open>WorkerAgent.shutdown\<close> from its \<open>for\<close> loop on, in the world the awaited
  \<open>BaseAgent.shutdown\<close> (not among the sources) has left. Every registered handle is
  cancelled. With an empty registry \<open>asyncio.gather\<close> is called without arguments and
  returns a future that is already done: shutdown returns without suspending and no task
  runs. Otherwise shutdown suspends in \<open>gather\<close> (in CPython 3.11, the first release with
  \<open>asyncio.timeout\<close>, also when the handles are all done: their callbacks are called by
  the loop), and the loop runs what is ready, each task once: the gathered tasks are over
  after that, and a pending task that is not registered has started meanwhile and waits
  in its body.
\<close>

definition shutdown :: "(string \<Rightarrow> 'a option) \<Rightarrow> ('a::{plus,minus,ord}) world \<Rightarrow> 'a world" where
  "shutdown coerce s =
     (let hs = map snd (task_registry (agent s)) in
      if hs = [] then s
      else
        let cancelled = fold cancel_handle hs s
        in fold (run_ready coerce) (ready_queue hs cancelled) cancelled)"

subsection \<open>Schedules\<close>

text \<open>What the event loop runs next: the handler of an incoming request (its answer is
  dropped here), the first run of a spawned task, the resumption of a suspended task whose
  body has ended, or the worker's shutdown.\<close>

datatype 'a event = Request "'a TaskRequest" | Start nat | Resume nat "'a body_outcome" | Shutdown

definition step ::
  "(string \<Rightarrow> 'a option) \<Rightarrow> ('a::{plus,minus,ord}) event \<Rightarrow> 'a world \<Rightarrow> 'a world" where
  "step coerce e s =
     (case e of
        Request t \<Rightarrow> snd (handle_task_request s t)
      | Start h \<Rightarrow> start_task coerce s h
      | Resume h outcome \<Rightarrow> resume_task coerce s h outcome
      | Shutdown \<Rightarrow> shutdown coerce s)"

text \<open>A schedule run from the freshly constructed worker.\<close>

definition run :: "(string \<Rightarrow> rat option) \<Rightarrow> rat event list \<Rightarrow> rat world" where
  "run coerce evs = fold (step coerce) evs new_world"

subsection \<open>Example inputs\<close>

text \<open>A request with the given identifier and cpu and mem_gb requirements, an empty
  payload and the defaults of \<open>TaskRequest\<close> elsewhere.\<close>

definition request :: "TaskID \<Rightarrow> rat \<Rightarrow> rat \<Rightarrow> rat TaskRequest" where
  "request i c m =
     \<lparr> task_id = i, payload = [], priority = 1, deadline = None,
       required_resources = [''cpu'' \<mapsto> c, ''mem_gb'' \<mapsto> m] \<rparr>"

text \<open>A request whose profile names cpu only.\<close>

definition cpu_only_request :: "TaskID \<Rightarrow> rat \<Rightarrow> rat TaskRequest" where
  "cpu_only_request i c =
     \<lparr> task_id = i, payload = [], priority = 1, deadline = None,
       required_resources = [''cpu'' \<mapsto> c] \<rparr>"

text \<open>A request whose profile names mem_gb only.\<close>

definition mem_only_request :: "TaskID \<Rightarrow> rat \<Rightarrow> rat TaskRequest" where
  "mem_only_request i m =
     \<lparr> task_id = i, payload = [], priority = 1, deadline = None,
       required_resources = [''mem_gb'' \<mapsto> m] \<rparr>"

text \<open>Six small requests, each started before the next one arrives.\<close>

definition six_started :: "rat event list" where
  "six_started =
     [Request (request ''t1'' (1 / 10) (1 / 10)), Start 0,
      Request (request ''t2'' (1 / 10) (1 / 10)), Start 1,
      Request (request ''t3'' (1 / 10) (1 / 10)), Start 2,
      Request (request ''t4'' (1 / 10) (1 / 10)), Start 3,
      Request (request ''t5'' (1 / 10) (1 / 10)), Start 4,
      Request (request ''t6'' (1 / 10) (1 / 10)), Start 5]"

text \<open>One request of \<open>{cpu: 1.2, mem_gb: 4}\<close>, queued; and the same with its task started.\<close>

definition one_queued :: "rat event list" where
  "one_queued = [Request (request ''a'' (6 / 5) 4)]"

definition one_running :: "rat event list" where
  "one_running = [Request (request ''a'' (6 / 5) 4), Start 0]"

subsection \<open>Accounting\<close>

text \<open>What a task contributes to the load of a kind: its requirement while its execution
  has begun and not ended, nothing before and after.\<close>

definition contribution :: "string \<Rightarrow> rat asyncio_task \<Rightarrow> rat" where
  "contribution k tk =
     (if state tk = Suspended
      then (case required_resources (coro tk) k of Some r \<Rightarrow> r | None \<Rightarrow> 0)
      else 0)"

definition committed :: "string \<Rightarrow> rat asyncio_task list \<Rightarrow> rat" where
  "committed k ts = sum_list (map (contribution k) ts)"

definition keyed :: "'a asyncio_task \<Rightarrow> bool" where
  "keyed tk =
     (required_resources (coro tk) ''cpu'' \<noteq> None \<and>
      required_resources (coro tk) ''mem_gb'' \<noteq> None)"

text \<open>Every lookup of the two kinds succeeds: in the load, and in the profile of every
  task.\<close>

definition keys_present :: "'a world \<Rightarrow> bool" where
  "keys_present s =
     (list_all keyed (tasks s) \<and>
      current_load (agent s) ''cpu'' \<noteq> None \<and>
      current_load (agent s) ''mem_gb'' \<noteq> None)"

text \<open>In exact arithmetic the ledger is exact: every task's profile names both kinds, and
  the load of each kind is the sum of what the tasks contribute.\<close>

definition accounted :: "rat world \<Rightarrow> bool" where
  "accounted s =
     (list_all keyed (tasks s) \<and>
      current_load (agent s) ''cpu'' = Some (committed ''cpu'' (tasks s)) \<and>
      current_load (agent s) ''mem_gb'' = Some (committed ''mem_gb'' (tasks s)))"

text \<open>The free slots of the semaphore together with the configuration.\<close>

definition slots :: "'a world \<Rightarrow> nat \<times> 'a WorkerConfig" where
  "slots s = (resource_semaphore (agent s), worker_config (agent s))"

subsection \<open>The registry and the drain\<close>

text \<open>The identifier of each task of the event loop, by handle.\<close>

definition ids :: "'a world \<Rightarrow> TaskID list" where
  "ids s = map (\<lambda>tk. task_id (coro tk)) (tasks s)"

text \<open>The registry is sound: no identifier is registered twice, and every entry's handle
  is a task of the loop that carries the entry's identifier.\<close>

definition registered :: "'a world \<Rightarrow> bool" where
  "registered s =
     (distinct (map fst (task_registry (agent s))) \<and>
      (\<forall>e \<in> set (task_registry (agent s)). snd e < length (ids s) \<and> ids s ! snd e = fst e))"

text \<open>One run of one task removes at most one entry.\<close>

definition shrinks :: "(TaskID \<times> nat) list \<Rightarrow> (TaskID \<times> nat) list \<Rightarrow> bool" where
  "shrinks r' r = (r' = r \<or> (\<exists>k. r' = AList.delete k r))"

text \<open>A task is settled once it is cancelled or over, finished once it is over.\<close>

definition settled :: "'a asyncio_task \<Rightarrow> bool" where
  "settled tk = (must_cancel tk \<or> (\<exists>r. state tk = Done r))"

definition finished :: "'a asyncio_task \<Rightarrow> bool" where
  "finished tk = (\<exists>r. state tk = Done r)"

section \<open>Properties\<close>

text \<open>The definitions a closed run unfolds.\<close>

lemmas model_defs =
  run_def step_def new_world_def new_agent_def default_config_def
  handle_task_request_def check_resources_def getitem_def create_task_def
  start_task_def add_load_def sub_load_def release_resources_def finish_def fail_task_def
  handle_task_failure_def TaskResult_new_def validate_metric_def report_to_orchestrator_def
  resume_task_def cancel_def cancel_handle_def run_ready_def ready_queue_def shutdown_def
  Let_def

subsection \<open>Frames\<close>

text \<open>The defaults pass the validator of the limits.\<close>

lemma default_config_valid:
  "validate_resources (resource_limits default_config) = Inr (resource_limits default_config)"
  by (simp add: validate_resources_def default_config_def getitem_def)

text \<open>A run of a task that is not in the expected state does nothing.\<close>

lemma start_task_idle:
  "\<not> (h < length (tasks s) \<and> state (tasks s ! h) = Pending) \<Longrightarrow> start_task coerce s h = s"
  unfolding start_task_def by (rule if_not_P)

lemma resume_task_idle:
  "\<not> (h < length (tasks s) \<and> state (tasks s ! h) = Suspended) \<Longrightarrow>
   resume_task coerce s h outcome = s"
  unfolding resume_task_def by (rule if_not_P)

lemma handle_task_failure_frame:
  "tasks (snd (handle_task_failure coerce s i reason)) = tasks s"
  "agent (snd (handle_task_failure coerce s i reason)) = agent s"
  by (simp_all add: handle_task_failure_def report_to_orchestrator_def split: sum.split)

text \<open>A request that is not queued leaves the world as it was, whatever the answer.\<close>

lemma handle_task_request_unchanged:
  "(\<forall>i. fst (handle_task_request s t) \<noteq> Inr (Queued i)) \<Longrightarrow> snd (handle_task_request s t) = s"
  by (auto simp add: handle_task_request_def Let_def split: sum.splits bool.splits if_splits)

lemma finish_reports: "reports (finish s h exc) = reports s"
  by (simp add: finish_def Let_def)

subsection \<open>The admission check\<close>

text \<open>
  C7. Every request whose requirement exceeds the remaining capacity is said to be
  answered \<open>insufficient_resources\<close>. A profile asking for 100 of mem_gb, against the limit
  8, that does not name cpu gets no answer: the check raises \<open>KeyError\<close> on its first
  read of the profile.
\<close>

theorem over_capacity_without_cpu_raises:
  "required_resources (mem_only_request ''m'' 100) ''mem_gb'' = Some 100 \<and>
   current_load (agent new_world) ''mem_gb'' = Some 0 \<and>
   resource_limits (worker_config (agent new_world)) ''mem_gb'' = Some 8 \<and>
   handle_task_request new_world (mem_only_request ''m'' 100) =
     (Inl (KeyError ''cpu''), new_world)"
  by (simp add: model_defs mem_only_request_def)

text \<open>
  C7, as the code has it, in whatever arithmetic the quantities live. A request whose
  profile names cpu and whose requirement does not fit is answered
  \<open>insufficient_resources\<close>; no execution is spawned, and the load and the registry are
  as before: the whole world is unchanged. Not to fit is what the code tests: the sum of
  load and requirement, as the addition of the quantities gives it, is not at most the
  limit, for cpu, or for mem_gb when the profile names it. The load and the limits hold
  both kinds.
\<close>

theorem insufficient_resources_rejected:
  assumes "current_load (agent s) ''cpu'' = Some lc"
    and "current_load (agent s) ''mem_gb'' = Some lm"
    and "resource_limits (worker_config (agent s)) ''cpu'' = Some mc"
    and "resource_limits (worker_config (agent s)) ''mem_gb'' = Some mm"
    and "required_resources t ''cpu'' = Some rc"
    and "\<not> lc + rc \<le> mc \<or> (\<exists>rm. required_resources t ''mem_gb'' = Some rm \<and> \<not> lm + rm \<le> mm)"
  shows "handle_task_request s t = (Inr Insufficient_resources, s)"
  using assms by (auto simp add: handle_task_request_def check_resources_def getitem_def)

theorem insufficient_resources_rejected_witness:
  "current_load (agent new_world) ''cpu'' = Some 0 \<and>
   current_load (agent new_world) ''mem_gb'' = Some 0 \<and>
   resource_limits (worker_config (agent new_world)) ''cpu'' = Some 2 \<and>
   resource_limits (worker_config (agent new_world)) ''mem_gb'' = Some 8 \<and>
   required_resources (request ''big'' 1 9) ''cpu'' = Some 1 \<and>
   required_resources (request ''big'' 1 9) ''mem_gb'' = Some 9 \<and>
   \<not> (0::rat) + 9 \<le> 8 \<and>
   handle_task_request new_world (request ''big'' 1 9) = (Inr Insufficient_resources, new_world)"
  using insufficient_resources_rejected
    [of new_world 0 0 2 8 "request ''big'' 1 9" 1]
  by (simp add: new_world_def new_agent_def default_config_def request_def)

text \<open>
  C8. For every profile the check is said to evaluate the kinds present in it against
  the limits. A profile that names mem_gb alone, asking for 1 against the limit 8, is not
  evaluated at all: the freshly constructed worker's check raises \<open>KeyError\<close> for cpu, a
  kind the profile does not hold. It is the same for a profile that names cpu alone.
\<close>

theorem profile_kinds_not_evaluated:
  "[''mem_gb'' \<mapsto> (1::rat)] ''cpu'' = None \<and>
   [''mem_gb'' \<mapsto> (1::rat)] ''mem_gb'' = Some 1 \<and>
   current_load new_agent ''mem_gb'' = Some 0 \<and>
   resource_limits (worker_config new_agent) ''mem_gb'' = Some 8 \<and>
   (0::rat) + 1 \<le> 8 \<and>
   check_resources new_agent [''mem_gb'' \<mapsto> 1] = Inl (KeyError ''cpu'') \<and>
   check_resources new_agent [''cpu'' \<mapsto> 1] = Inl (KeyError ''mem_gb'')"
  by (simp add: model_defs)

text \<open>
  C8, as the code has it, in whatever arithmetic the quantities live. For a profile that
  names both cpu and mem_gb the check compares these two kinds with the limits: it
  admits exactly when the sum of load and requirement, as the addition of the quantities
  gives it, is at most the limit, for cpu and for mem_gb. Nothing else enters the
  answer: any further kind, of the profile or of the limits, is ignored and causes
  neither a denial nor an error.
\<close>

theorem check_resources_compares_cpu_and_mem:
  assumes "current_load w ''cpu'' = Some lc"
    and "current_load w ''mem_gb'' = Some lm"
    and "resource_limits (worker_config w) ''cpu'' = Some mc"
    and "resource_limits (worker_config w) ''mem_gb'' = Some mm"
    and "required ''cpu'' = Some rc"
    and "required ''mem_gb'' = Some rm"
  shows "check_resources w required = Inr (lc + rc \<le> mc \<and> lm + rm \<le> mm)"
  using assms by (simp add: check_resources_def getitem_def)

theorem check_resources_compares_cpu_and_mem_witness:
  "current_load new_agent ''cpu'' = Some 0 \<and>
   current_load new_agent ''mem_gb'' = Some 0 \<and>
   resource_limits (worker_config new_agent) ''cpu'' = Some 2 \<and>
   resource_limits (worker_config new_agent) ''mem_gb'' = Some 8 \<and>
   [''cpu'' \<mapsto> 1 / 2, ''mem_gb'' \<mapsto> 1, ''gpu'' \<mapsto> (4::rat)] ''cpu'' = Some (1 / 2) \<and>
   [''cpu'' \<mapsto> 1 / 2, ''mem_gb'' \<mapsto> 1, ''gpu'' \<mapsto> (4::rat)] ''mem_gb'' = Some 1 \<and>
   check_resources new_agent [''cpu'' \<mapsto> 1 / 2, ''mem_gb'' \<mapsto> 1, ''gpu'' \<mapsto> 4] = Inr True \<and>
   [''cpu'' \<mapsto> 1, ''mem_gb'' \<mapsto> (9::rat)] ''cpu'' = Some 1 \<and>
   [''cpu'' \<mapsto> 1, ''mem_gb'' \<mapsto> (9::rat)] ''mem_gb'' = Some 9 \<and>
   check_resources new_agent [''cpu'' \<mapsto> 1, ''mem_gb'' \<mapsto> 9] = Inr False"
  using check_resources_compares_cpu_and_mem
    [of new_agent 0 0 2 8 "[''cpu'' \<mapsto> 1 / 2, ''mem_gb'' \<mapsto> 1, ''gpu'' \<mapsto> 4]" "1 / 2" 1]
    check_resources_compares_cpu_and_mem
    [of new_agent 0 0 2 8 "[''cpu'' \<mapsto> 1, ''mem_gb'' \<mapsto> 9]" 1 9]
  by (simp add: new_agent_def default_config_def)

text \<open>The answer, an error included, depends on nothing but the six values the check
  reads: two workers and two profiles that agree at cpu and mem_gb get the same answer.\<close>

lemma check_resources_reads_cpu_and_mem_only:
  assumes "current_load w ''cpu'' = current_load w' ''cpu''"
    and "current_load w ''mem_gb'' = current_load w' ''mem_gb''"
    and "resource_limits (worker_config w) ''cpu'' = resource_limits (worker_config w') ''cpu''"
    and "resource_limits (worker_config w) ''mem_gb'' = resource_limits (worker_config w') ''mem_gb''"
    and "required ''cpu'' = required' ''cpu''"
    and "required ''mem_gb'' = required' ''mem_gb''"
  shows "check_resources w required = check_resources w' required'"
  by (simp only: check_resources_def getitem_def assms)

text \<open>The two kinds that are read must be in the limits: without the cpu limit the check
  raises \<open>KeyError\<close>.\<close>

lemma check_resources_limit_missing:
  assumes "current_load w ''cpu'' = Some lc" and "required ''cpu'' = Some rc"
    and "resource_limits (worker_config w) ''cpu'' = None"
  shows "check_resources w required = Inl (KeyError ''cpu'')"
  using assms by (simp add: check_resources_def getitem_def)

text \<open>
  C9. A profile lacking cpu or mem_gb is said to raise \<open>KeyError\<close> always. A profile
  with cpu alone, asking for more cpu than the limit, is rejected with
  \<open>insufficient_resources\<close> instead: the cpu comparison fails and \<open>and\<close> never reads
  mem_gb.
\<close>

theorem missing_mem_gb_rejected_without_error:
  "required_resources (cpu_only_request ''c'' 3) ''mem_gb'' = None \<and>
   handle_task_request new_world (cpu_only_request ''c'' 3) =
     (Inr Insufficient_resources, new_world)"
  by (simp add: model_defs cpu_only_request_def)

text \<open>
  C9, as the code has it, in whatever arithmetic the quantities live. With both kinds in
  the load and in the limits: a profile lacking cpu raises \<open>KeyError\<close> for cpu; a profile
  with cpu but without mem_gb raises \<open>KeyError\<close> for mem_gb when the code's cpu
  comparison holds (the sum of load and requirement, as the addition of the quantities
  gives it, is at most the limit), and is rejected with \<open>insufficient_resources\<close> when it
  does not hold. The world is unchanged in each case.
\<close>

theorem missing_key_outcome:
  assumes "current_load (agent s) ''cpu'' = Some lc"
    and "current_load (agent s) ''mem_gb'' = Some lm"
    and "resource_limits (worker_config (agent s)) ''cpu'' = Some mc"
    and "resource_limits (worker_config (agent s)) ''mem_gb'' = Some mm"
  shows "(required_resources t ''cpu'' = None \<longrightarrow>
            handle_task_request s t = (Inl (KeyError ''cpu''), s)) \<and>
         (\<forall>rc. required_resources t ''cpu'' = Some rc \<and> required_resources t ''mem_gb'' = None \<longrightarrow>
            handle_task_request s t =
              (if lc + rc \<le> mc then Inl (KeyError ''mem_gb'') else Inr Insufficient_resources, s))"
  using assms by (simp add: handle_task_request_def check_resources_def getitem_def)

theorem missing_key_outcome_witness:
  "current_load (agent new_world) ''cpu'' = Some 0 \<and>
   current_load (agent new_world) ''mem_gb'' = Some 0 \<and>
   resource_limits (worker_config (agent new_world)) ''cpu'' = Some 2 \<and>
   resource_limits (worker_config (agent new_world)) ''mem_gb'' = Some 8 \<and>
   required_resources (mem_only_request ''m'' 1) ''cpu'' = None \<and>
   handle_task_request new_world (mem_only_request ''m'' 1) = (Inl (KeyError ''cpu''), new_world) \<and>
   required_resources (cpu_only_request ''c'' 1) ''cpu'' = Some 1 \<and>
   required_resources (cpu_only_request ''c'' 1) ''mem_gb'' = None \<and>
   handle_task_request new_world (cpu_only_request ''c'' 1) =
     (Inl (KeyError ''mem_gb''), new_world) \<and>
   required_resources (cpu_only_request ''d'' 5) ''cpu'' = Some 5 \<and>
   required_resources (cpu_only_request ''d'' 5) ''mem_gb'' = None \<and>
   handle_task_request new_world (cpu_only_request ''d'' 5) =
     (Inr Insufficient_resources, new_world)"
  using missing_key_outcome [of new_world 0 0 2 8 "mem_only_request ''m'' 1"]
    missing_key_outcome [of new_world 0 0 2 8 "cpu_only_request ''c'' 1"]
    missing_key_outcome [of new_world 0 0 2 8 "cpu_only_request ''d'' 5"]
  by (simp add: new_world_def new_agent_def default_config_def cpu_only_request_def
      mem_only_request_def)

subsection \<open>The concurrency slots\<close>

text \<open>No step changes the number of free slots or the configuration: the handler gives
  back the slot it took before it returns, and nothing else touches the semaphore.\<close>

lemma slots_handle: "slots (snd (handle_task_request s t)) = slots s"
  by (simp add: slots_def handle_task_request_def Let_def split: sum.split bool.split)

lemma slots_finish: "slots (finish s h exc) = slots s"
  by (simp add: slots_def finish_def release_resources_def sub_load_def Let_def
      split: sum.split)

lemma slots_fail_task: "slots (fail_task coerce s h reason) = slots s"
  by (simp add: fail_task_def Let_def slots_finish)
     (simp add: slots_def handle_task_failure_frame)

lemma slots_start: "slots (start_task coerce s h) = slots s"
  by (simp add: start_task_def Let_def slots_fail_task add_load_def split: sum.split)
     (auto simp add: slots_def)

lemma slots_resume: "slots (resume_task coerce s h outcome) = slots s"
  by (simp add: resume_task_def slots_fail_task slots_finish
      split: body_outcome.split sum.split)
     (simp add: slots_def report_to_orchestrator_def)

lemma slots_cancel_handle: "slots (cancel_handle h s) = slots s"
  by (simp add: cancel_handle_def slots_def)

lemma slots_run_ready: "slots (run_ready coerce h s) = slots s"
  by (simp add: run_ready_def slots_start slots_finish split: task_state.split)

lemma slots_fold:
  assumes "\<And>h s. slots (f h s) = slots s"
  shows "slots (fold f hs s) = slots s"
  by (induction hs arbitrary: s) (simp_all add: assms)

lemma slots_shutdown: "slots (shutdown coerce s) = slots s"
  by (simp add: shutdown_def Let_def slots_fold slots_run_ready slots_cancel_handle)

lemma slots_step: "slots (step coerce e s) = slots s"
  by (simp add: step_def slots_handle slots_start slots_resume slots_shutdown split: event.split)

text \<open>After every schedule all five slots are free.\<close>

lemma slots_run: "slots (run coerce evs) = (5, default_config)"
  unfolding run_def
proof (induction evs rule: rev_induct)
  case Nil
  show ?case by (simp add: slots_def new_world_def new_agent_def default_config_def)
next
  case (snoc e evs)
  then show ?case by (simp add: slots_step)
qed

text \<open>So no handler ever has to wait for a slot, however many executions are under way.\<close>

lemma never_awaits_slot:
  "fst (handle_task_request (run coerce evs) t) \<noteq> Inr Awaiting_slot"
  using slots_run [of coerce evs]
  by (simp add: slots_def handle_task_request_def Let_def split: sum.split bool.split)

text \<open>
  C2. At most \<open>max_concurrent_tasks\<close> executions are in flight at once, the slot being
  held for the whole execution. The code releases the slot when the handler returns:
  with the default of five slots, six requests that fit the limits are all registered
  and all six executions are suspended in their bodies together, the semaphore showing
  five free slots.
\<close>

theorem six_in_flight_with_five_slots:
  "length (filter (\<lambda>tk. state tk = Suspended) (tasks (run coerce six_started))) = 6 \<and>
   map fst (task_registry (agent (run coerce six_started))) =
     [''t1'', ''t2'', ''t3'', ''t4'', ''t5'', ''t6''] \<and>
   max_concurrent_tasks (worker_config (agent (run coerce six_started))) = 5 \<and>
   resource_semaphore (agent (run coerce six_started)) = 5"
  by (simp add: model_defs six_started_def request_def)

subsection \<open>The load\<close>

text \<open>The handler never touches the load: the increments are left to the spawned task.\<close>

lemma handle_task_request_load:
  "current_load (agent (snd (handle_task_request s t))) = current_load (agent s)"
  by (simp add: handle_task_request_def Let_def split: sum.split bool.split)

text \<open>
  C1. The check and the increment of the load are one atomic step, so that two
  admissions never both succeed when together they exceed a limit. The code checks in
  the handler and increments in the spawned task's first run: with the limits
  \<open>{cpu: 2.0, mem_gb: 8}\<close>, two requests of \<open>{cpu: 1.2, mem_gb: 4}\<close> handled one after the
  other are both queued, and once both tasks have started the cpu load is 2.4.
\<close>

theorem admission_race_exceeds_limit:
  "fst (handle_task_request (run coerce []) (request ''a'' (6 / 5) 4)) = Inr (Queued ''a'') \<and>
   fst (handle_task_request (run coerce [Request (request ''a'' (6 / 5) 4)])
          (request ''b'' (6 / 5) 4)) = Inr (Queued ''b'') \<and>
   current_load (agent (run coerce
       [Request (request ''a'' (6 / 5) 4), Request (request ''b'' (6 / 5) 4), Start 0, Start 1]))
     ''cpu'' = Some (12 / 5) \<and>
   resource_limits (worker_config (agent (run coerce
       [Request (request ''a'' (6 / 5) 4), Request (request ''b'' (6 / 5) 4), Start 0, Start 1])))
     ''cpu'' = Some 2"
  by (simp add: model_defs request_def)

text \<open>What the increments and decrements amount to in exact arithmetic: the load is at
  every moment the sum of the requirements of the tasks whose execution has begun and not
  ended. With floats each addition and subtraction rounds, and the load is that sum only up
  to the rounding. First for each step.\<close>

lemma committed_update:
  "h < length ts \<Longrightarrow>
   committed k (ts[h := y]) = committed k ts - contribution k (ts ! h) + contribution k y"
  unfolding committed_def
proof (induction ts arbitrary: h)
  case Nil
  then show ?case by simp
next
  case (Cons t ts)
  then show ?case by (cases h) simp_all
qed

lemma committed_append: "committed k (ts @ [y]) = committed k ts + contribution k y"
  by (simp add: committed_def)

lemma list_all_update: "list_all P ts \<Longrightarrow> P y \<Longrightarrow> list_all P (ts[h := y])"
  by (induction ts arbitrary: h) (auto split: nat.splits)

lemma keyedD:
  "list_all keyed ts \<Longrightarrow> h < length ts \<Longrightarrow>
   \<exists>rc rm. required_resources (coro (ts ! h)) ''cpu'' = Some rc \<and>
           required_resources (coro (ts ! h)) ''mem_gb'' = Some rm"
  by (auto simp add: list_all_length keyed_def)

lemma accounted_new: "accounted new_world"
  by (simp add: accounted_def new_world_def new_agent_def committed_def)

lemma check_resources_True_keyed:
  "check_resources w r = Inr True \<Longrightarrow> r ''cpu'' \<noteq> None \<and> r ''mem_gb'' \<noteq> None"
  by (auto simp add: check_resources_def getitem_def split: option.splits if_splits)

lemma accounted_handle:
  assumes "accounted s"
  shows "accounted (snd (handle_task_request s t))"
proof (cases "check_resources (agent s) (required_resources t)")
  case (Inl e)
  then show ?thesis using assms by (simp add: handle_task_request_def)
next
  case (Inr b)
  show ?thesis
  proof (cases b)
    case False
    with Inr show ?thesis using assms by (simp add: handle_task_request_def)
  next
    case True
    with Inr have k: "keyed (create_task t)"
      using check_resources_True_keyed [of "agent s" "required_resources t"]
      by (simp add: keyed_def create_task_def)
    have c: "contribution k' (create_task t) = 0" for k'
      by (simp add: contribution_def create_task_def)
    show ?thesis using assms Inr True k
      by (simp add: handle_task_request_def Let_def accounted_def committed_append c)
  qed
qed

lemma accounted_reports: "accounted (s\<lparr> reports := r \<rparr>) = accounted s"
  by (simp add: accounted_def)

lemma accounted_finish:
  assumes "accounted s" and "h < length (tasks s)" and "state (tasks s ! h) = Suspended"
  shows "accounted (finish s h exc)"
proof -
  from assms obtain rc rm where
    r: "required_resources (coro (tasks s ! h)) ''cpu'' = Some rc"
       "required_resources (coro (tasks s ! h)) ''mem_gb'' = Some rm"
    using keyedD [of "tasks s" h] by (auto simp add: accounted_def)
  have k: "keyed ((tasks s ! h)\<lparr> state := Done e \<rparr>)" for e
    using assms by (simp add: keyed_def accounted_def list_all_length)
  show ?thesis
    using assms r k
    by (simp add: accounted_def finish_def release_resources_def sub_load_def getitem_def
        Let_def committed_update contribution_def list_all_update)
qed

lemma accounted_fail_task:
  assumes "accounted s" and "h < length (tasks s)" and "state (tasks s ! h) = Suspended"
  shows "accounted (fail_task coerce s h reason)"
proof -
  let ?s' = "snd (handle_task_failure coerce s (task_id (coro (tasks s ! h))) reason)"
  have "accounted ?s'"
    using assms(1) by (simp add: accounted_def handle_task_failure_frame)
  then have "accounted (finish ?s' h exc)" for exc
    using assms(2,3) by (intro accounted_finish) (simp_all add: handle_task_failure_frame)
  then show ?thesis
    by (simp add: fail_task_def Let_def)
qed

lemma accounted_resume:
  assumes "accounted s"
  shows "accounted (resume_task coerce s h outcome)"
proof (cases "h < length (tasks s) \<and> state (tasks s ! h) = Suspended")
  case False
  show ?thesis using assms by (simp only: resume_task_idle [OF False])
next
  case True
  then have f: "accounted (finish (report_to_orchestrator s r) h exc)" for r exc
    using assms
    by (intro accounted_finish) (simp_all add: report_to_orchestrator_def accounted_reports)
  from True have g: "accounted (finish s h exc)" for exc
    using assms by (intro accounted_finish) simp_all
  from True have e: "accounted (fail_task coerce s h reason)" for reason
    using assms by (intro accounted_fail_task) simp_all
  show ?thesis
    using True f g e
    by (simp add: resume_task_def split: body_outcome.split sum.split)
qed

lemma accounted_start:
  assumes "accounted s"
  shows "accounted (start_task coerce s h)"
proof (cases "h < length (tasks s) \<and> state (tasks s ! h) = Pending")
  case False
  show ?thesis using assms by (simp only: start_task_idle [OF False])
next
  case True
  from assms True obtain rc rm where
    r: "required_resources (coro (tasks s ! h)) ''cpu'' = Some rc"
       "required_resources (coro (tasks s ! h)) ''mem_gb'' = Some rm"
    using keyedD [of "tasks s" h] by (auto simp add: accounted_def)
  have k: "keyed ((tasks s ! h)\<lparr> state := st \<rparr>)" for st
    using assms True by (simp add: keyed_def accounted_def list_all_length)
  show ?thesis
    using assms True r k
    by (simp add: accounted_def start_task_def add_load_def getitem_def Let_def
        committed_update contribution_def list_all_update)
qed

lemma contribution_cancel: "contribution k (cancel tk) = contribution k tk"
  by (simp add: contribution_def cancel_def split: task_state.split)

lemma keyed_cancel: "keyed (cancel tk) = keyed tk"
  by (simp add: keyed_def cancel_def split: task_state.split)

lemma accounted_cancel_handle:
  assumes "accounted s"
  shows "accounted (cancel_handle h s)"
proof (cases "h < length (tasks s)")
  case False
  then show ?thesis using assms by (simp add: cancel_handle_def)
next
  case True
  then have "keyed (cancel (tasks s ! h))"
    using assms by (simp add: keyed_cancel accounted_def list_all_length)
  then show ?thesis
    using assms True
    by (simp add: cancel_handle_def accounted_def committed_update contribution_cancel
        list_all_update)
qed

lemma accounted_run_ready:
  assumes "accounted s"
  shows "accounted (run_ready coerce h s)"
  using assms accounted_start [of s coerce h] accounted_finish [of s h]
  by (simp add: run_ready_def split: task_state.split)

lemma accounted_fold:
  assumes "\<And>h s. accounted s \<Longrightarrow> accounted (f h s)"
  shows "accounted s \<Longrightarrow> accounted (fold f hs s)"
  by (induction hs arbitrary: s) (simp_all add: assms)

lemma accounted_shutdown:
  assumes "accounted s"
  shows "accounted (shutdown coerce s)"
proof (cases "task_registry (agent s) = []")
  case True
  then show ?thesis using assms by (simp add: shutdown_def)
next
  case False
  have "accounted (fold (run_ready coerce) qs (fold cancel_handle hs s))" for qs hs
    by (intro accounted_fold accounted_run_ready accounted_cancel_handle assms)
  with False show ?thesis by (simp add: shutdown_def Let_def)
qed

lemma accounted_step: "accounted s \<Longrightarrow> accounted (step coerce e s)"
  by (simp add: step_def accounted_handle accounted_start accounted_resume accounted_shutdown
      split: event.split)

text \<open>Then for every schedule, in exact arithmetic: increments and decrements come in
  matching pairs, and no task's failure or cancellation disturbs what the others have
  committed.\<close>

lemma accounted_run: "accounted (run coerce evs)"
  unfolding run_def
proof (induction evs rule: rev_induct)
  case Nil
  show ?case by (simp add: accounted_new)
next
  case (snoc e evs)
  then show ?case by (simp add: accounted_step)
qed


text \<open>In whatever arithmetic: the load always holds both kinds, and so does the profile
  of every task of the loop, so that no increment and no decrement ever raises
  \<open>KeyError\<close>.\<close>

lemma keys_present_handle:
  assumes "keys_present s"
  shows "keys_present (snd (handle_task_request s t))"
proof (cases "check_resources (agent s) (required_resources t)")
  case (Inl e)
  then show ?thesis using assms by (simp add: handle_task_request_def)
next
  case (Inr b)
  show ?thesis
  proof (cases b)
    case False
    with Inr show ?thesis using assms by (simp add: handle_task_request_def)
  next
    case True
    with Inr have "keyed (create_task t)"
      using check_resources_True_keyed [of "agent s" "required_resources t"]
      by (simp add: keyed_def create_task_def)
    with assms Inr True show ?thesis
      by (simp add: handle_task_request_def Let_def keys_present_def)
  qed
qed

lemma keys_present_finish:
  assumes "keys_present s" and "h < length (tasks s)"
  shows "keys_present (finish s h exc)"
proof -
  from assms obtain rc rm where
    r: "required_resources (coro (tasks s ! h)) ''cpu'' = Some rc"
       "required_resources (coro (tasks s ! h)) ''mem_gb'' = Some rm"
    using keyedD [of "tasks s" h] by (auto simp add: keys_present_def)
  from assms obtain lc lm where
    l: "current_load (agent s) ''cpu'' = Some lc" "current_load (agent s) ''mem_gb'' = Some lm"
    by (auto simp add: keys_present_def)
  have k: "keyed ((tasks s ! h)\<lparr> state := Done e \<rparr>)" for e
    using assms by (simp add: keyed_def keys_present_def list_all_length)
  show ?thesis
    using assms r l k
    by (simp add: keys_present_def finish_def release_resources_def sub_load_def getitem_def
        Let_def list_all_update)
qed

lemma keys_present_fail_task:
  assumes "keys_present s" and "h < length (tasks s)"
  shows "keys_present (fail_task coerce s h reason)"
proof -
  let ?s' = "snd (handle_task_failure coerce s (task_id (coro (tasks s ! h))) reason)"
  have "keys_present ?s'"
    using assms(1) by (simp add: keys_present_def handle_task_failure_frame)
  then have "keys_present (finish ?s' h exc)" for exc
    using assms(2) by (intro keys_present_finish) (simp_all add: handle_task_failure_frame)
  then show ?thesis
    by (simp add: fail_task_def Let_def)
qed

lemma keys_present_resume:
  assumes "keys_present s"
  shows "keys_present (resume_task coerce s h outcome)"
proof (cases "h < length (tasks s) \<and> state (tasks s ! h) = Suspended")
  case False
  show ?thesis using assms by (simp only: resume_task_idle [OF False])
next
  case True
  have "keys_present (report_to_orchestrator s r)" for r
    using assms by (simp add: keys_present_def report_to_orchestrator_def)
  then have f: "keys_present (finish (report_to_orchestrator s r) h exc)" for r exc
    using True by (intro keys_present_finish) (simp_all add: report_to_orchestrator_def)
  from True have g: "keys_present (finish s h exc)" for exc
    using assms by (intro keys_present_finish) simp_all
  from True have e: "keys_present (fail_task coerce s h reason)" for reason
    using assms by (intro keys_present_fail_task) simp_all
  show ?thesis
    using True f g e
    by (simp add: resume_task_def split: body_outcome.split sum.split)
qed

lemma keys_present_start:
  assumes "keys_present s"
  shows "keys_present (start_task coerce s h)"
proof (cases "h < length (tasks s) \<and> state (tasks s ! h) = Pending")
  case False
  show ?thesis using assms by (simp only: start_task_idle [OF False])
next
  case True
  from assms True obtain rc rm where
    r: "required_resources (coro (tasks s ! h)) ''cpu'' = Some rc"
       "required_resources (coro (tasks s ! h)) ''mem_gb'' = Some rm"
    using keyedD [of "tasks s" h] by (auto simp add: keys_present_def)
  from assms obtain lc lm where
    l: "current_load (agent s) ''cpu'' = Some lc" "current_load (agent s) ''mem_gb'' = Some lm"
    by (auto simp add: keys_present_def)
  have k: "keyed ((tasks s ! h)\<lparr> state := st \<rparr>)" for st
    using assms True by (simp add: keyed_def keys_present_def list_all_length)
  show ?thesis
    using assms True r l k
    by (simp add: keys_present_def start_task_def add_load_def getitem_def Let_def
        list_all_update)
qed

lemma keys_present_cancel_handle:
  assumes "keys_present s"
  shows "keys_present (cancel_handle h s)"
proof (cases "h < length (tasks s)")
  case False
  then show ?thesis using assms by (simp add: cancel_handle_def)
next
  case True
  then have "keyed (cancel (tasks s ! h))"
    using assms by (simp add: keyed_cancel keys_present_def list_all_length)
  then show ?thesis
    using assms True
    by (simp add: cancel_handle_def keys_present_def list_all_update)
qed

lemma keys_present_run_ready:
  assumes "keys_present s"
  shows "keys_present (run_ready coerce h s)"
  using assms keys_present_start [of s coerce h] keys_present_finish [of s h]
  by (simp add: run_ready_def split: task_state.split)

lemma keys_present_fold:
  assumes "\<And>h s. keys_present s \<Longrightarrow> keys_present (f h s)"
  shows "keys_present s \<Longrightarrow> keys_present (fold f hs s)"
  by (induction hs arbitrary: s) (simp_all add: assms)

lemma keys_present_shutdown:
  assumes "keys_present s"
  shows "keys_present (shutdown coerce s)"
proof (cases "task_registry (agent s) = []")
  case True
  then show ?thesis using assms by (simp add: shutdown_def)
next
  case False
  have "keys_present (fold (run_ready coerce) qs (fold cancel_handle hs s))" for qs hs
    by (intro keys_present_fold keys_present_run_ready keys_present_cancel_handle assms)
  with False show ?thesis by (simp add: shutdown_def Let_def)
qed

lemma keys_present_step: "keys_present s \<Longrightarrow> keys_present (step coerce e s)"
  by (simp add: step_def keys_present_handle keys_present_start keys_present_resume
      keys_present_shutdown split: event.split)

lemma keys_present_run: "keys_present (run coerce evs)"
  unfolding run_def
proof (induction evs rule: rev_induct)
  case Nil
  show ?case by (simp add: keys_present_def new_world_def new_agent_def)
next
  case (snoc e evs)
  then show ?case by (simp add: keys_present_step)
qed

subsection \<open>Results\<close>

text \<open>A string that spells no number cannot be stored as the \<open>"error"\<close> metric: the
  failure handler raises \<open>ValidationError\<close> before it reaches the Reporter.\<close>

lemma handle_task_failure_rejected:
  "coerce reason = None \<Longrightarrow>
     handle_task_failure coerce s tid reason = (Some (ValidationError ''error''), s)"
  by (simp add: handle_task_failure_def TaskResult_new_def validate_metric_def)

text \<open>
  C3. When the body exceeds the timeout, or raises another failure, a result with
  \<open>success = False\<close> and the cause as its \<open>"error"\<close> metric is built and passed to the
  Reporter. The code builds it with the \<open>str\<close> \<open>"timeout"\<close>, or the failure's text, in a
  field of floats: whenever that text spells no number, the construction raises and the
  Reporter is not called at all.
\<close>

theorem failure_result_not_reported:
  assumes "h < length (tasks s)" and "state (tasks s ! h) = Suspended"
    and "\<not> must_cancel (tasks s ! h)"
    and "coerce ''timeout'' = None" and "coerce msg = None"
  shows "reports (resume_task coerce s h Body_timeout) = reports s \<and>
         reports (resume_task coerce s h (Body_raises msg)) = reports s"
  using assms
  by (simp add: resume_task_def fail_task_def handle_task_failure_rejected finish_reports)

theorem failure_result_not_reported_witness:
  "0 < length (tasks (run decimal_literal one_running)) \<and>
   state (tasks (run decimal_literal one_running) ! 0) = Suspended \<and>
   \<not> must_cancel (tasks (run decimal_literal one_running) ! 0) \<and>
   decimal_literal ''timeout'' = None \<and> decimal_literal ''boom'' = None \<and>
   reports (resume_task decimal_literal
       (run decimal_literal one_running) 0 Body_timeout) = [] \<and>
   reports (resume_task decimal_literal
       (run decimal_literal one_running) 0 (Body_raises ''boom'')) = []"
  using failure_result_not_reported
    [of 0 "run decimal_literal one_running" decimal_literal "''boom''"]
  by (simp add: model_defs one_running_def request_def decimal_literal_def digit_val_def)

text \<open>
  C4. Every admitted request yields exactly one result, handed to the Reporter, whether
  the task succeeds, times out or fails. In the code a task that succeeds yields one
  result; one that times out, or fails with the text \<open>boom\<close>, yields none and ends on
  the \<open>ValidationError\<close> of the result's construction.
\<close>

theorem no_result_for_timeout_or_failure:
  "map success (reports (run decimal_literal
      (one_running @ [Resume 0 (Body_returns [(''duration'', 1)])])))
     = [True] \<and>
   reports (run decimal_literal
      (one_running @ [Resume 0 Body_timeout])) = [] \<and>
   map state (tasks (run decimal_literal
      (one_running @ [Resume 0 Body_timeout])))
     = [Done (Some (ValidationError ''error''))] \<and>
   reports (run decimal_literal
      (one_running @ [Resume 0 (Body_raises ''boom'')])) = [] \<and>
   map state (tasks (run decimal_literal
      (one_running @ [Resume 0 (Body_raises ''boom'')])))
     = [Done (Some (ValidationError ''error''))]"
  by (simp add: model_defs one_running_def request_def decimal_literal_def digit_val_def)

subsection \<open>Cleanup\<close>

text \<open>Leaving a task whose profile names both kinds: both decrements and the removal
  from the registry happen, whatever exception is in flight.\<close>

lemma finish_cleanup:
  assumes "h < length (tasks s)"
    and "current_load (agent s) ''cpu'' = Some lc"
    and "current_load (agent s) ''mem_gb'' = Some lm"
    and "required_resources (coro (tasks s ! h)) ''cpu'' = Some rc"
    and "required_resources (coro (tasks s ! h)) ''mem_gb'' = Some rm"
  shows "current_load (agent (finish s h exc)) ''cpu'' = Some (lc - rc)"
    and "current_load (agent (finish s h exc)) ''mem_gb'' = Some (lm - rm)"
    and "task_registry (agent (finish s h exc)) =
           AList.delete (task_id (coro (tasks s ! h))) (task_registry (agent s))"
    and "state (tasks (finish s h exc) ! h) = Done exc"
  using assms
  by (simp_all add: finish_def release_resources_def sub_load_def getitem_def Let_def)

text \<open>A task whose execution has begun is cleaned up however its body ends: on success,
  on timeout and on failure (also when the failure result cannot be built), and on
  cancellation.\<close>

lemma resume_task_cleanup:
  assumes "h < length (tasks s)" and "state (tasks s ! h) = Suspended"
    and "current_load (agent s) ''cpu'' = Some lc"
    and "current_load (agent s) ''mem_gb'' = Some lm"
    and "required_resources (coro (tasks s ! h)) ''cpu'' = Some rc"
    and "required_resources (coro (tasks s ! h)) ''mem_gb'' = Some rm"
  shows "current_load (agent (resume_task coerce s h outcome)) ''cpu'' = Some (lc - rc) \<and>
         current_load (agent (resume_task coerce s h outcome)) ''mem_gb'' = Some (lm - rm) \<and>
         task_registry (agent (resume_task coerce s h outcome)) =
           AList.delete (task_id (coro (tasks s ! h))) (task_registry (agent s)) \<and>
         (\<exists>exc. state (tasks (resume_task coerce s h outcome) ! h) = Done exc)"
  using assms
  by (simp add: resume_task_def fail_task_def Let_def finish_cleanup handle_task_failure_frame
      report_to_orchestrator_def split: body_outcome.split sum.split)

text \<open>
  C5. On every terminal outcome of an admitted task, cancellation included, the load is
  decremented by the task's requirement and the task's registry entry is removed. In the
  code a task cancelled before its first run ends cancelled without running the
  \<open>finally\<close> block: its registry entry stays (the load, never incremented, is not
  decremented either).
\<close>

theorem cancelled_before_start_keeps_entry:
  "fst (handle_task_request (run coerce []) (request ''a'' (6 / 5) 4)) = Inr (Queued ''a'') \<and>
   map state (tasks (run coerce (one_queued @ [Shutdown])))
     = [Done (Some CancelledError)] \<and>
   task_registry (agent (run coerce (one_queued @ [Shutdown])))
     = [(''a'', 0)] \<and>
   current_load (agent (run coerce (one_queued @ [Shutdown]))) ''cpu''
     = Some 0"
  by (simp add: model_defs one_queued_def request_def)

text \<open>In whatever arithmetic: a task whose execution has begun (it is suspended in its
  body) and that is then cancelled from outside ends with \<open>CancelledError\<close>; no result is
  passed to the Reporter; the load is decremented by its cpu and mem_gb requirements, as
  the subtraction of the quantities gives it; and its identifier's entry is removed from
  the registry.\<close>

lemma cancelled_running_task_cleanup:
  assumes "h < length (tasks s)" and "state (tasks s ! h) = Suspended"
    and "current_load (agent s) ''cpu'' = Some lc"
    and "current_load (agent s) ''mem_gb'' = Some lm"
    and "required_resources (coro (tasks s ! h)) ''cpu'' = Some rc"
    and "required_resources (coro (tasks s ! h)) ''mem_gb'' = Some rm"
  shows "reports (run_ready coerce h (cancel_handle h s)) = reports s \<and>
         current_load (agent (run_ready coerce h (cancel_handle h s))) ''cpu'' = Some (lc - rc) \<and>
         current_load (agent (run_ready coerce h (cancel_handle h s))) ''mem_gb'' = Some (lm - rm) \<and>
         task_registry (agent (run_ready coerce h (cancel_handle h s))) =
           AList.delete (task_id (coro (tasks s ! h))) (task_registry (agent s)) \<and>
         state (tasks (run_ready coerce h (cancel_handle h s)) ! h) = Done (Some CancelledError)"
  using assms
  by (simp add: run_ready_def cancel_handle_def cancel_def finish_def release_resources_def
      sub_load_def getitem_def Let_def)

text \<open>
  C10. Every in-flight task that is cancelled from outside, by shutdown for example, is
  said to get no result but still its cleanup, the decrement of the load and the removal
  from the registry. In the code the cleanup is skipped for a registered task that
  shutdown cancels before its first run: the task ends cancelled with no line of
  \<open>_execute_task\<close> run, nothing is reported, and the registry still holds its entry when
  shutdown has returned.
\<close>

theorem cancelled_pending_task_skips_cleanup:
  "map state (tasks (run decimal_literal one_queued)) = [Pending] \<and>
   task_registry (agent (run decimal_literal one_queued)) = [(''a'', 0)] \<and>
   map state (tasks (shutdown decimal_literal (run decimal_literal one_queued)))
     = [Done (Some CancelledError)] \<and>
   reports (shutdown decimal_literal (run decimal_literal one_queued)) = [] \<and>
   task_registry (agent (shutdown decimal_literal (run decimal_literal one_queued)))
     = [(''a'', 0)]"
  by (simp add: model_defs one_queued_def request_def)

subsection \<open>Shutdown\<close>

text \<open>The steps of a task change that task only, and keep the list of tasks as long as
  it was.\<close>

lemma length_finish: "length (tasks (finish s h exc)) = length (tasks s)"
  by (simp add: finish_def Let_def)

lemma length_fail_task: "length (tasks (fail_task coerce s h reason)) = length (tasks s)"
  by (simp add: fail_task_def Let_def length_finish handle_task_failure_frame)

lemma length_start: "length (tasks (start_task coerce s h)) = length (tasks s)"
  by (simp add: start_task_def Let_def length_fail_task split: sum.split)

lemma length_run_ready: "length (tasks (run_ready coerce h s)) = length (tasks s)"
  by (simp add: run_ready_def length_start length_finish split: task_state.split)

lemma length_cancel_handle: "length (tasks (cancel_handle h s)) = length (tasks s)"
  by (simp add: cancel_handle_def)

lemma nth_finish_other: "j \<noteq> h \<Longrightarrow> tasks (finish s h exc) ! j = tasks s ! j"
  by (simp add: finish_def Let_def)

lemma nth_fail_task_other:
  "j \<noteq> h \<Longrightarrow> tasks (fail_task coerce s h reason) ! j = tasks s ! j"
  by (simp add: fail_task_def Let_def nth_finish_other handle_task_failure_frame)

lemma nth_start_other: "j \<noteq> h \<Longrightarrow> tasks (start_task coerce s h) ! j = tasks s ! j"
  by (simp add: start_task_def Let_def nth_fail_task_other split: sum.split)

lemma nth_run_ready_other:
  "j \<noteq> h \<Longrightarrow> tasks (run_ready coerce h s) ! j = tasks s ! j"
  by (simp add: run_ready_def nth_start_other nth_finish_other split: task_state.split)

lemma finished_finish: "h < length (tasks s) \<Longrightarrow> finished (tasks (finish s h exc) ! h)"
  by (simp add: finish_def Let_def finished_def)

lemma finished_fail_task:
  "h < length (tasks s) \<Longrightarrow> finished (tasks (fail_task coerce s h reason) ! h)"
  by (simp add: fail_task_def Let_def finished_finish handle_task_failure_frame)

text \<open>A task that shutdown has cancelled is over after its next run, and stays so.\<close>

lemma run_ready_finishes:
  assumes "h < length (tasks s)" and "settled (tasks s ! h)"
  shows "finished (tasks (run_ready coerce h s) ! h)"
proof (cases "state (tasks s ! h)")
  case Pending
  with assms have "must_cancel (tasks s ! h)" by (simp add: settled_def)
  with assms Pending show ?thesis
    by (simp add: run_ready_def start_task_def Let_def finished_def)
next
  case Suspended
  with assms have "must_cancel (tasks s ! h)" by (simp add: settled_def)
  with assms Suspended show ?thesis
    by (simp add: run_ready_def finished_finish)
next
  case (Done r)
  with assms show ?thesis by (simp add: run_ready_def finished_def)
qed

lemma run_ready_keeps_finished:
  assumes "finished (tasks s ! j)"
  shows "finished (tasks (run_ready coerce h s) ! j)"
proof (cases "j = h")
  case True
  with assms show ?thesis by (auto simp add: run_ready_def finished_def)
next
  case False
  with assms show ?thesis by (simp add: nth_run_ready_other)
qed

lemma run_ready_keeps_settled:
  assumes "j < length (tasks s)" and "settled (tasks s ! j)"
  shows "settled (tasks (run_ready coerce h s) ! j)"
proof (cases "j = h")
  case True
  with assms have "finished (tasks (run_ready coerce h s) ! j)"
    by (simp add: run_ready_finishes)
  then show ?thesis by (simp add: settled_def finished_def)
next
  case False
  with assms show ?thesis by (simp add: nth_run_ready_other)
qed

lemma fold_run_ready_length: "length (tasks (fold (run_ready coerce) hs s)) = length (tasks s)"
  by (induction hs arbitrary: s) (simp_all add: length_run_ready)

lemma fold_run_ready_other:
  "j \<notin> set hs \<Longrightarrow> tasks (fold (run_ready coerce) hs s) ! j = tasks s ! j"
  by (induction hs arbitrary: s) (simp_all add: nth_run_ready_other)

lemma fold_run_ready_keeps_finished:
  "finished (tasks s ! j) \<Longrightarrow> finished (tasks (fold (run_ready coerce) hs s) ! j)"
  by (induction hs arbitrary: s) (simp_all add: run_ready_keeps_finished)

text \<open>A cancelled task that is in the queue, or over already, is over when the queue has
  been run.\<close>

lemma fold_run_ready_finishes:
  assumes "j < length (tasks s)" and "settled (tasks s ! j)"
    and "j \<in> set hs \<or> finished (tasks s ! j)"
  shows "finished (tasks (fold (run_ready coerce) hs s) ! j)"
  using assms
proof (induction hs arbitrary: s)
  case Nil
  then show ?case by simp
next
  case (Cons a hs)
  let ?s1 = "run_ready coerce a s"
  have l: "j < length (tasks ?s1)" using Cons.prems(1) by (simp add: length_run_ready)
  have t: "settled (tasks ?s1 ! j)" using Cons.prems(1,2) by (rule run_ready_keeps_settled)
  have "j \<in> set hs \<or> finished (tasks ?s1 ! j)"
  proof (cases "j = a")
    case True
    with Cons.prems(1,2) show ?thesis by (simp add: run_ready_finishes)
  next
    case False
    with Cons.prems(3) show ?thesis by (auto simp add: run_ready_keeps_finished)
  qed
  with l t have "finished (tasks (fold (run_ready coerce) hs ?s1) ! j)"
    by (rule Cons.IH)
  then show ?case by simp
qed

lemma settled_cancel: "settled (cancel tk)"
  by (simp add: settled_def cancel_def split: task_state.split)

lemma cancel_handle_settles:
  "h < length (tasks s) \<Longrightarrow> settled (tasks (cancel_handle h s) ! h)"
  by (simp add: cancel_handle_def settled_cancel)

lemma cancel_handle_keeps_settled:
  "j < length (tasks s) \<Longrightarrow> settled (tasks s ! j) \<Longrightarrow> settled (tasks (cancel_handle h s) ! j)"
  by (cases "j = h") (simp_all add: cancel_handle_def settled_cancel)

lemma fold_cancel_handle_length: "length (tasks (fold cancel_handle hs s)) = length (tasks s)"
  by (induction hs arbitrary: s) (simp_all add: length_cancel_handle)

lemma fold_cancel_handle_keeps_settled:
  "j < length (tasks s) \<Longrightarrow> settled (tasks s ! j) \<Longrightarrow>
   settled (tasks (fold cancel_handle hs s) ! j)"
  by (induction hs arbitrary: s)
     (simp_all add: cancel_handle_keeps_settled length_cancel_handle)

lemma fold_cancel_handle_settles:
  "\<forall>h \<in> set hs. h < length (tasks s) \<Longrightarrow>
   \<forall>h \<in> set hs. settled (tasks (fold cancel_handle hs s) ! h)"
proof (induction hs arbitrary: s)
  case Nil
  show ?case by simp
next
  case (Cons a hs)
  then have "settled (tasks (fold cancel_handle hs (cancel_handle a s)) ! a)"
    by (simp add: fold_cancel_handle_keeps_settled cancel_handle_settles length_cancel_handle)
  moreover from Cons have "\<forall>h \<in> set hs. settled (tasks (fold cancel_handle hs (cancel_handle a s)) ! h)"
    by (simp add: length_cancel_handle)
  ultimately show ?case by simp
qed

text \<open>The drain is complete: when shutdown returns, every task it found registered is
  over.\<close>

lemma shutdown_drains:
  assumes "\<forall>h \<in> set (map snd (task_registry (agent s))). h < length (tasks s)"
  shows "\<forall>h \<in> set (map snd (task_registry (agent s))). finished (tasks (shutdown coerce s) ! h)"
proof
  fix h
  let ?hs = "map snd (task_registry (agent s))"
  let ?c = "fold cancel_handle ?hs s"
  assume h: "h \<in> set ?hs"
  then have ne: "?hs \<noteq> []" by auto
  from h assms have l: "h < length (tasks ?c)"
    by (auto simp add: fold_cancel_handle_length)
  from assms have "\<forall>h \<in> set ?hs. settled (tasks ?c ! h)"
    by (rule fold_cancel_handle_settles)
  then have t: "settled (tasks ?c ! h)" using h by (rule bspec)
  have q: "h \<in> set (ready_queue ?hs ?c) \<or> finished (tasks ?c ! h)"
    using h l by (cases "state (tasks ?c ! h)") (auto simp add: ready_queue_def finished_def)
  have "finished (tasks (fold (run_ready coerce) (ready_queue ?hs ?c) ?c) ! h)"
    using l t q by (rule fold_run_ready_finishes)
  with ne show "finished (tasks (shutdown coerce s) ! h)"
    by (simp add: shutdown_def Let_def)
qed

text \<open>The registry stays sound along every schedule.\<close>

lemma map_update_same: "h < length xs \<Longrightarrow> f y = f (xs ! h) \<Longrightarrow> map f (xs[h := y]) = map f xs"
  by (simp add: map_update list_update_same_conv)

lemma ids_finish: "ids (finish s h exc) = ids s"
proof (cases "h < length (tasks s)")
  case True
  then show ?thesis by (simp add: ids_def finish_def Let_def map_update_same)
next
  case False
  then show ?thesis by (simp add: ids_def finish_def Let_def list_update_beyond)
qed

lemma ids_fail_task: "ids (fail_task coerce s h reason) = ids s"
  by (simp add: fail_task_def Let_def ids_finish) (simp add: ids_def handle_task_failure_frame)

lemma ids_start: "ids (start_task coerce s h) = ids s"
proof (cases "h < length (tasks s) \<and> state (tasks s ! h) = Pending")
  case False
  show ?thesis by (simp only: start_task_idle [OF False])
next
  case True
  have "ids (fail_task coerce (s\<lparr> agent := w \<rparr>) h r) = ids s" for w r
    by (simp add: ids_fail_task) (simp add: ids_def)
  with True show ?thesis
    by (simp add: start_task_def Let_def ids_fail_task split: sum.split)
       (simp add: ids_def map_update_same)
qed

lemma ids_resume: "ids (resume_task coerce s h outcome) = ids s"
  by (simp add: resume_task_def ids_fail_task ids_finish split: body_outcome.split sum.split)
     (simp add: ids_def report_to_orchestrator_def)

lemma ids_cancel_handle: "ids (cancel_handle h s) = ids s"
  by (simp add: cancel_handle_def ids_def map_update_same cancel_def split: task_state.split)

lemma ids_run_ready: "ids (run_ready coerce h s) = ids s"
  by (simp add: run_ready_def ids_start ids_finish split: task_state.split)

lemma shrinks_refl: "shrinks r r"
  by (simp add: shrinks_def)

lemma sub_load_registry: "sub_load k r w = Inr w' \<Longrightarrow> task_registry w' = task_registry w"
  by (auto simp add: sub_load_def split: sum.splits)

lemma add_load_registry: "add_load k r w = Inr w' \<Longrightarrow> task_registry w' = task_registry w"
  by (auto simp add: add_load_def split: sum.splits)

lemma shrinks_release:
  "shrinks (task_registry (snd (release_resources w t))) (task_registry w)"
proof (cases "sub_load ''cpu'' (required_resources t) w")
  case (Inl e)
  then show ?thesis by (simp add: release_resources_def shrinks_def)
next
  case (Inr w1)
  note c = this
  show ?thesis
  proof (cases "sub_load ''mem_gb'' (required_resources t) w1")
    case (Inl e)
    with c show ?thesis
      by (simp add: release_resources_def shrinks_def sub_load_registry [OF c])
  next
    case (Inr w2)
    with c show ?thesis
      by (auto simp add: release_resources_def shrinks_def sub_load_registry [OF c]
          sub_load_registry [OF Inr])
  qed
qed

lemma shrinks_finish:
  "shrinks (task_registry (agent (finish s h exc))) (task_registry (agent s))"
  by (simp add: finish_def Let_def shrinks_release)

lemma shrinks_fail_task:
  "shrinks (task_registry (agent (fail_task coerce s h reason))) (task_registry (agent s))"
  using shrinks_finish
    [of "snd (handle_task_failure coerce s (task_id (coro (tasks s ! h))) reason)" h]
  by (simp add: fail_task_def Let_def handle_task_failure_frame)

lemma shrinks_start:
  "shrinks (task_registry (agent (start_task coerce s h))) (task_registry (agent s))"
proof (cases "h < length (tasks s) \<and> state (tasks s ! h) = Pending")
  case False
  show ?thesis by (simp only: start_task_idle [OF False] shrinks_refl)
next
  case True
  have f: "shrinks (task_registry (agent (fail_task coerce (s\<lparr> agent := w \<rparr>) h r)))
             (task_registry (agent s))"
    if "task_registry w = task_registry (agent s)" for w r
    using shrinks_fail_task [of coerce "s\<lparr> agent := w \<rparr>" h r] that by simp
  show ?thesis
    using True shrinks_fail_task [of coerce s h]
    by (auto simp add: start_task_def Let_def shrinks_refl f add_load_registry
        split: sum.split)
qed

lemma shrinks_resume:
  "shrinks (task_registry (agent (resume_task coerce s h outcome))) (task_registry (agent s))"
  using shrinks_finish [of s h] shrinks_fail_task [of coerce s h]
    shrinks_finish [of "report_to_orchestrator s r" h for r]
  by (simp add: resume_task_def shrinks_refl report_to_orchestrator_def
      split: body_outcome.split sum.split)

lemma shrinks_run_ready:
  "shrinks (task_registry (agent (run_ready coerce h s))) (task_registry (agent s))"
  using shrinks_start [of coerce s h] shrinks_finish [of s h]
  by (simp add: run_ready_def shrinks_refl split: task_state.split)

lemma set_delete_subset: "set (AList.delete k al) \<subseteq> set al"
  by (induction al) auto

lemma set_update_subset: "set (AList.update k v al) \<subseteq> insert (k, v) (set al)"
  by (induction al) auto

lemma registered_shrinks:
  assumes "registered s" and "ids s' = ids s"
    and "shrinks (task_registry (agent s')) (task_registry (agent s))"
  shows "registered s'"
  using assms set_delete_subset
  by (fastforce simp add: registered_def shrinks_def distinct_delete)

lemma registered_start: "registered s \<Longrightarrow> registered (start_task coerce s h)"
  by (rule registered_shrinks [OF _ ids_start shrinks_start])

lemma registered_resume: "registered s \<Longrightarrow> registered (resume_task coerce s h outcome)"
  by (rule registered_shrinks [OF _ ids_resume shrinks_resume])

lemma registered_run_ready: "registered s \<Longrightarrow> registered (run_ready coerce h s)"
  by (rule registered_shrinks [OF _ ids_run_ready shrinks_run_ready])

lemma registered_cancel_handle: "registered s \<Longrightarrow> registered (cancel_handle h s)"
  using registered_shrinks [of s "cancel_handle h s"]
  by (simp add: ids_cancel_handle) (simp add: cancel_handle_def shrinks_refl)

lemma registered_fold:
  assumes "\<And>h s. registered s \<Longrightarrow> registered (f h s)"
  shows "registered s \<Longrightarrow> registered (fold f hs s)"
  by (induction hs arbitrary: s) (simp_all add: assms)

lemma registered_shutdown:
  assumes "registered s"
  shows "registered (shutdown coerce s)"
proof (cases "task_registry (agent s) = []")
  case True
  then show ?thesis using assms by (simp add: shutdown_def)
next
  case False
  have "registered (fold (run_ready coerce) qs (fold cancel_handle hs s))" for qs hs
    by (intro registered_fold registered_run_ready registered_cancel_handle assms)
  with False show ?thesis by (simp add: shutdown_def Let_def)
qed

lemma registered_handle:
  assumes "registered s"
  shows "registered (snd (handle_task_request s t))"
proof (cases "\<exists>i. fst (handle_task_request s t) = Inr (Queued i)")
  case False
  then show ?thesis using assms by (simp add: handle_task_request_unchanged)
next
  case True
  then have q: "check_resources (agent s) (required_resources t) = Inr True"
    and f: "resource_semaphore (agent s) \<noteq> 0"
    by (auto simp add: handle_task_request_def Let_def split: sum.splits bool.splits if_splits)
  let ?s' = "snd (handle_task_request s t)"
  from q f have r: "task_registry (agent ?s') =
      AList.update (task_id t) (length (tasks s)) (task_registry (agent s))"
    and l: "ids ?s' = ids s @ [task_id t]"
    by (simp_all add: handle_task_request_def Let_def ids_def create_task_def)
  have n: "length (ids s) = length (tasks s)"
    by (simp add: ids_def)
  have "set (task_registry (agent ?s'))
          \<subseteq> insert (task_id t, length (tasks s)) (set (task_registry (agent s)))"
    unfolding r by (rule set_update_subset)
  with assms show ?thesis
    unfolding registered_def r l
    by (auto simp add: distinct_update nth_append n less_Suc_eq)
qed

lemma registered_step: "registered s \<Longrightarrow> registered (step coerce e s)"
  by (simp add: step_def registered_handle registered_start registered_resume
      registered_shutdown split: event.split)

lemma registered_run: "registered (run coerce evs)"
  unfolding run_def
proof (induction evs rule: rev_induct)
  case Nil
  show ?case by (simp add: registered_def new_world_def new_agent_def)
next
  case (snoc e evs)
  then show ?case by (simp add: registered_step)
qed
text \<open>When every registered task has begun its execution, shutdown empties the
  registry. The tasks still pending then are not registered: their first runs leave the
  registry alone.\<close>

lemma finish_registry_keys:
  assumes "keys_present s" and "h < length (tasks s)"
  shows "task_registry (agent (finish s h exc)) =
           AList.delete (task_id (coro (tasks s ! h))) (task_registry (agent s))"
proof -
  from assms obtain rc rm where
    r: "required_resources (coro (tasks s ! h)) ''cpu'' = Some rc"
       "required_resources (coro (tasks s ! h)) ''mem_gb'' = Some rm"
    using keyedD [of "tasks s" h] by (auto simp add: keys_present_def)
  from assms obtain lc lm where
    "current_load (agent s) ''cpu'' = Some lc" "current_load (agent s) ''mem_gb'' = Some lm"
    by (auto simp add: keys_present_def)
  with assms r show ?thesis
    by (simp add: finish_cleanup(3))
qed

lemma start_registry_keys:
  assumes "keys_present s"
  shows "task_registry (agent (start_task coerce s h)) = task_registry (agent s)"
proof (cases "h < length (tasks s) \<and> state (tasks s ! h) = Pending")
  case False
  show ?thesis by (simp only: start_task_idle [OF False])
next
  case True
  from assms True obtain rc rm where
    r: "required_resources (coro (tasks s ! h)) ''cpu'' = Some rc"
       "required_resources (coro (tasks s ! h)) ''mem_gb'' = Some rm"
    using keyedD [of "tasks s" h] by (auto simp add: keys_present_def)
  from assms obtain lc lm where
    l: "current_load (agent s) ''cpu'' = Some lc" "current_load (agent s) ''mem_gb'' = Some lm"
    by (auto simp add: keys_present_def)
  show ?thesis
    using True r l
    by (simp add: start_task_def add_load_def getitem_def Let_def)
qed

lemma first_runs_keep_registry:
  assumes "keys_present s" and "distinct hs"
    and "\<forall>h \<in> set hs. state (tasks s ! h) = Pending"
  shows "task_registry (agent (fold (run_ready coerce) hs s)) = task_registry (agent s)"
  using assms
proof (induction hs arbitrary: s)
  case Nil
  then show ?case by simp
next
  case (Cons a hs)
  let ?s1 = "run_ready coerce a s"
  from Cons.prems(3) have p: "state (tasks s ! a) = Pending" by simp
  then have r: "task_registry (agent ?s1) = task_registry (agent s)"
    using Cons.prems(1) by (simp add: run_ready_def start_registry_keys)
  have "task_registry (agent (fold (run_ready coerce) hs ?s1)) = task_registry (agent ?s1)"
  proof (rule Cons.IH)
    show "keys_present ?s1" using Cons.prems(1) by (rule keys_present_run_ready)
    show "distinct hs" using Cons.prems(2) by simp
    show "\<forall>h \<in> set hs. state (tasks ?s1 ! h) = Pending"
    proof
      fix h
      assume h: "h \<in> set hs"
      with Cons.prems(2) have "h \<noteq> a" by auto
      then have "tasks ?s1 ! h = tasks s ! h" by (rule nth_run_ready_other)
      with h Cons.prems(3) show "state (tasks ?s1 ! h) = Pending" by simp
    qed
  qed
  with r show ?case by simp
qed

lemma drain_registry:
  assumes "task_registry (agent s) = reg" and "registered s" and "keys_present s"
    and "\<forall>e \<in> set reg. state (tasks s ! snd e) = Suspended \<and> must_cancel (tasks s ! snd e)"
  shows "task_registry (agent (fold (run_ready coerce) (map snd reg) s)) = []"
  using assms
proof (induction reg arbitrary: s)
  case Nil
  then show ?case by simp
next
  case (Cons e rest)
  obtain i h where e: "e = (i, h)" by (cases e)
  let ?s' = "run_ready coerce h s"
  from Cons.prems e have h: "h < length (tasks s)" and i: "task_id (coro (tasks s ! h)) = i"
    and d: "i \<notin> fst ` set rest"
    by (auto simp add: registered_def ids_def)
  from Cons.prems e have st: "state (tasks s ! h) = Suspended" "must_cancel (tasks s ! h)"
    by simp_all
  with h have s': "?s' = finish s h (Some CancelledError)"
    by (simp add: run_ready_def)
  have r: "task_registry (agent ?s') = rest"
    using Cons.prems(1,3) h i d e
    by (simp add: s' finish_registry_keys)
  have others: "snd x \<noteq> h" if "x \<in> set rest" for x
  proof
    assume "snd x = h"
    with that Cons.prems(1,2) i have "fst x = i"
      by (auto simp add: registered_def ids_def)
    with that d show False by auto
  qed
  have "task_registry (agent (fold (run_ready coerce) (map snd rest) ?s')) = []"
  proof (rule Cons.IH [OF r])
    show "registered ?s'" using Cons.prems(2) by (rule registered_run_ready)
    show "keys_present ?s'" using Cons.prems(3) by (rule keys_present_run_ready)
    show "\<forall>x \<in> set rest. state (tasks ?s' ! snd x) = Suspended \<and> must_cancel (tasks ?s' ! snd x)"
      using Cons.prems(4) others by (simp add: nth_run_ready_other)
  qed
  with e show ?case by simp
qed

lemma fold_cancel_handle_frame:
  "agent (fold cancel_handle hs s) = agent s"
  by (induction hs arbitrary: s) (simp_all add: cancel_handle_def)

lemma nth_cancel_handle:
  "j < length (tasks s) \<Longrightarrow>
   tasks (cancel_handle h s) ! j = (if j = h then cancel (tasks s ! j) else tasks s ! j)"
  by (simp add: cancel_handle_def)

lemma cancel_idem: "cancel (cancel tk) = cancel tk"
  by (simp add: cancel_def split: task_state.split)

lemma fold_cancel_handle_nth:
  "j < length (tasks s) \<Longrightarrow>
   tasks (fold cancel_handle hs s) ! j = (if j \<in> set hs then cancel (tasks s ! j) else tasks s ! j)"
proof (induction hs arbitrary: s)
  case Nil
  then show ?case by simp
next
  case (Cons a hs)
  then show ?case
    by (simp add: length_cancel_handle nth_cancel_handle cancel_idem)
qed

lemma keys_present_fold_cancel: "keys_present s \<Longrightarrow> keys_present (fold cancel_handle hs s)"
  by (rule keys_present_fold [OF keys_present_cancel_handle])

lemma registered_fold_cancel: "registered s \<Longrightarrow> registered (fold cancel_handle hs s)"
  by (rule registered_fold [OF registered_cancel_handle])

lemma shutdown_empties_registry:
  assumes "registered s" and "keys_present s"
    and "\<forall>e \<in> set (task_registry (agent s)). state (tasks s ! snd e) = Suspended"
  shows "task_registry (agent (shutdown coerce s)) = []"
proof (cases "task_registry (agent s) = []")
  case True
  then show ?thesis by (simp add: shutdown_def)
next
  case False
  let ?reg = "task_registry (agent s)"
  let ?hs = "map snd ?reg"
  let ?c = "fold cancel_handle ?hs s"
  let ?P = "filter (\<lambda>h. state (tasks ?c ! h) = Pending) [0..<length (tasks ?c)]"
  let ?Q = "filter (\<lambda>h. h < length (tasks ?c) \<and> state (tasks ?c ! h) = Suspended) ?hs"
  let ?s2 = "fold (run_ready coerce) ?P ?c"
  have c: "\<forall>e \<in> set ?reg. snd e < length (tasks ?c) \<and>
             state (tasks ?c ! snd e) = Suspended \<and> must_cancel (tasks ?c ! snd e)"
    using assms(1,3)
    by (auto simp add: fold_cancel_handle_nth fold_cancel_handle_length registered_def ids_def
        cancel_def)
  then have q: "?Q = ?hs"
    by (simp add: filter_id_conv)
  have kc: "keys_present ?c" using assms(2) by (rule keys_present_fold_cancel)
  have "task_registry (agent ?s2) = task_registry (agent ?c)"
    using kc by (rule first_runs_keep_registry) simp_all
  then have r2: "task_registry (agent ?s2) = ?reg"
    by (simp add: fold_cancel_handle_frame)
  have "snd e \<notin> set ?P" if "e \<in> set ?reg" for e
    using c that by simp
  then have same: "tasks ?s2 ! snd e = tasks ?c ! snd e" if "e \<in> set ?reg" for e
    using that by (simp add: fold_run_ready_other)
  have "task_registry (agent (fold (run_ready coerce) (map snd ?reg) ?s2)) = []"
  proof (rule drain_registry [OF r2])
    show "registered ?s2"
      by (intro registered_fold registered_run_ready registered_fold_cancel assms(1))
    show "keys_present ?s2"
      by (intro keys_present_fold keys_present_run_ready kc)
    show "\<forall>e \<in> set ?reg. state (tasks ?s2 ! snd e) = Suspended \<and> must_cancel (tasks ?s2 ! snd e)"
      using c same by simp
  qed
  with False q show ?thesis
    by (simp add: shutdown_def Let_def ready_queue_def)
qed

text \<open>Both facts for a shutdown at the end of any schedule.\<close>

lemma shutdown_after_run_drains:
  "\<forall>e \<in> set (task_registry (agent (run coerce evs))).
     finished (tasks (run coerce (evs @ [Shutdown])) ! snd e)"
  using shutdown_drains [of "run coerce evs" coerce] registered_run [of coerce evs]
  by (simp add: run_def step_def registered_def ids_def)

lemma shutdown_after_run_empties:
  assumes "\<forall>e \<in> set (task_registry (agent (run coerce evs))).
             state (tasks (run coerce evs) ! snd e) = Suspended"
  shows "task_registry (agent (run coerce (evs @ [Shutdown]))) = []"
  using shutdown_empties_registry [OF registered_run keys_present_run assms]
  by (simp add: run_def step_def)

text \<open>Two requests under one identifier: the second entry replaces the first handle, so
  shutdown neither cancels nor awaits the first task. When that task is suspended in its
  body it is still there, its requirement still committed, when shutdown has returned.
  When it is still pending it takes its first run while shutdown waits for the second
  task, and is suspended in its body, its requirement committed, when shutdown has
  returned.\<close>

lemma shutdown_misses_replaced_handle:
  "map state (tasks (run coerce
       [Request (request ''x'' (1 / 2) 1), Request (request ''x'' (1 / 2) 1), Start 0, Start 1,
        Shutdown]))
     = [Suspended, Done (Some CancelledError)] \<and>
   current_load (agent (run coerce
       [Request (request ''x'' (1 / 2) 1), Request (request ''x'' (1 / 2) 1), Start 0, Start 1,
        Shutdown])) ''cpu'' = Some (1 / 2)"
  by (simp add: model_defs request_def)

lemma shutdown_starts_replaced_pending_task:
  "map state (tasks (run coerce
       [Request (request ''x'' (1 / 2) 1), Request (request ''x'' (1 / 2) 1), Shutdown]))
     = [Suspended, Done (Some CancelledError)] \<and>
   current_load (agent (run coerce
       [Request (request ''x'' (1 / 2) 1), Request (request ''x'' (1 / 2) 1), Shutdown]))
     ''cpu'' = Some (1 / 2) \<and>
   task_registry (agent (run coerce
       [Request (request ''x'' (1 / 2) 1), Request (request ''x'' (1 / 2) 1), Shutdown]))
     = [(''x'', 1)]"
  by (simp add: model_defs request_def)

text \<open>With nothing registered shutdown does not suspend, and leaves the world as it
  is.\<close>

lemma shutdown_without_registry:
  "task_registry (agent s) = [] \<Longrightarrow> shutdown coerce s = s"
  by (simp add: shutdown_def)

text \<open>
  C6. Shutdown cancels every registered handle and returns only when all executions are
  over and the registry is empty. In the code, with one task suspended in its body and a
  second one queued but not yet run, shutdown ends both, and the registry still
  holds the second task's entry afterwards.
\<close>

theorem shutdown_leaves_registry_entry:
  "map state (tasks (run coerce
       [Request (request ''a'' (1 / 2) 1), Start 0, Request (request ''b'' (1 / 2) 1)]))
     = [Suspended, Pending] \<and>
   map state (tasks (run coerce
       [Request (request ''a'' (1 / 2) 1), Start 0, Request (request ''b'' (1 / 2) 1), Shutdown]))
     = [Done (Some CancelledError), Done (Some CancelledError)] \<and>
   task_registry (agent (run coerce
       [Request (request ''a'' (1 / 2) 1), Start 0, Request (request ''b'' (1 / 2) 1), Shutdown]))
     = [(''b'', 1)]"
  by (simp add: model_defs request_def)

end
